theory Spec2Isabelle
  imports Main "HOL-Library.Signed_Division" "HOL-Library.Word"
begin

section \<open>C strings, buffers and memory faults\<close>

text \<open>
  The server of \<^verbatim>\<open>main.c\<close> works on NUL-terminated C strings held in
  fixed-size buffers. A value of type \<open>string\<close> is the content of a C string (the bytes
  before its terminator). A buffer is the list of all its bytes, terminator and stale
  bytes included, so its length is its capacity. Reads and writes outside a buffer and
  NULL dereferences are results of the model: a function that can commit one returns
  \<open>fault + 'a\<close>. So is the overflow of \<^verbatim>\<open>int\<close> arithmetic, which C leaves undefined.
  Allocation of a size that fits the address space is assumed to succeed.
\<close>

datatype fault = OutOfBounds | NullPointer | IntOverflow

text \<open>Arithmetic on a 32-bit \<^verbatim>\<open>int\<close>: the result must lie between \<^verbatim>\<open>INT_MIN\<close> and
  \<^verbatim>\<open>INT_MAX\<close>.\<close>

definition INT_MIN :: int where
  "INT_MIN = - 2147483648"

definition INT_MAX :: int where
  "INT_MAX = 2147483647"

definition int_add :: "int \<Rightarrow> int \<Rightarrow> fault + int" where
  "int_add a b = (if INT_MIN \<le> a + b \<and> a + b \<le> INT_MAX then Inr (a + b) else Inl IntOverflow)"

definition int_mul :: "int \<Rightarrow> int \<Rightarrow> fault + int" where
  "int_mul a b = (if INT_MIN \<le> a * b \<and> a * b \<le> INT_MAX then Inr (a * b) else Inl IntOverflow)"

definition NUL :: char where
  "NUL = CHR 0x00"

definition CR :: char where
  "CR = CHR 0x0D"

definition LF :: char where
  "LF = CHR 0x0A"

text \<open>The string that starts at the first byte of a memory region: it ends at the
  first NUL, and the scan leaves the region when the region holds none.\<close>

definition cstr :: "string \<Rightarrow> fault + string" where
  "cstr mem = (if NUL \<in> set mem then Inr (takeWhile (\<lambda>c. c \<noteq> NUL) mem) else Inl OutOfBounds)"

text \<open>\<^verbatim>\<open>strchr\<close> and \<^verbatim>\<open>strstr\<close>: the offset of the first occurrence, \<open>None\<close>
  for the NULL result.\<close>

fun strchr :: "string \<Rightarrow> char \<Rightarrow> nat option" where
  "strchr [] c = None"
| "strchr (x # xs) c = (if x = c then Some 0 else map_option Suc (strchr xs c))"

fun strstr :: "string \<Rightarrow> string \<Rightarrow> nat option" where
  "strstr [] needle = (if needle = [] then Some 0 else None)"
| "strstr (x # xs) needle =
     (if take (length needle) (x # xs) = needle then Some 0
      else map_option Suc (strstr xs needle))"

text \<open>\<^verbatim>\<open>strcat\<close> and \<^verbatim>\<open>sprintf\<close> into a buffer of \<open>cap\<close> bytes: the text and its
  terminator must fit.\<close>

definition strcat :: "nat \<Rightarrow> string \<Rightarrow> string \<Rightarrow> fault + string" where
  "strcat cap dst src =
     (if length dst + length src + 1 \<le> cap then Inr (dst @ src) else Inl OutOfBounds)"

definition sprintf :: "nat \<Rightarrow> string \<Rightarrow> fault + string" where
  "sprintf cap s = (if length s + 1 \<le> cap then Inr s else Inl OutOfBounds)"

text \<open>\<^verbatim>\<open>isspace\<close> in the "C" locale (the program never calls \<^verbatim>\<open>setlocale\<close>):
  space, \<^verbatim>\<open>\t \n \v \f \r\<close>.\<close>

definition isspace :: "char \<Rightarrow> bool" where
  "isspace c \<longleftrightarrow>
     c = CHR '' '' \<or> c = CHR 0x09 \<or> c = CHR 0x0A \<or> c = CHR 0x0B \<or> c = CHR 0x0C \<or> c = CHR 0x0D"

text \<open>The conversions \<^verbatim>\<open>%zu\<close> and \<^verbatim>\<open>%d\<close>, and the reading of a decimal text.\<close>

fun show_nat :: "nat \<Rightarrow> string" where
  "show_nat n =
     (if n < 10 then [char_of (48 + n)]
      else show_nat (n div 10) @ [char_of (48 + n mod 10)])"

definition show_int :: "int \<Rightarrow> string" where
  "show_int i = (if i < 0 then CHR ''-'' # show_nat (nat (- i)) else show_nat (nat i))"

definition nat_of_decimal :: "string \<Rightarrow> nat" where
  "nat_of_decimal s = foldl (\<lambda>a c. 10 * a + (of_char c - 48)) 0 s"

text \<open>\<^verbatim>\<open>strtok_r(s, "\n", &saveptr)\<close> with one delimiter: skip the delimiters in front,
  end the token at the next delimiter, and leave \<open>saveptr\<close> behind it. The result is the
  token with the new \<open>saveptr\<close>, \<open>None\<close> when no token is left.\<close>

definition strtok_r :: "string \<Rightarrow> char \<Rightarrow> (string \<times> string) option" where
  "strtok_r s delim =
     (let s1 = dropWhile (\<lambda>c. c = delim) s in
      if s1 = [] then None
      else Some (takeWhile (\<lambda>c. c \<noteq> delim) s1, drop 1 (dropWhile (\<lambda>c. c \<noteq> delim) s1)))"

section \<open>Data model\<close>

text \<open>An entry of the status table: \<^verbatim>\<open>{code, reason}\<close>, the reason NULL in an
  entry that \<^verbatim>\<open>memset\<close> cleared.\<close>

type_synonym HttpStatus = "int \<times> string option"

record Configuration =
  port :: int
  max_reqsize :: int
  max_ressize :: int
  listening :: bool

text \<open>A \<^verbatim>\<open>Header\<close> node; the \<^verbatim>\<open>next\<close> links make a \<open>Header list\<close>. A \<^verbatim>\<open>char *\<close>
  field that the program leaves or tests as NULL is a \<open>string option\<close>. The \<^verbatim>\<open>int\<close> fields
  are integers; the arithmetic of the encoder on the header count of a response, which the
  caller sets, is checked against the range of \<^verbatim>\<open>int\<close>. The header count of a request
  stays far below \<open>2^31\<close> for every header block that fits a buffer whose size is an
  \<^verbatim>\<open>int\<close>.\<close>

record Header =
  name :: string
  "value" :: string

record Request =
  connection :: nat
  header_count :: int
  headers :: "Header list"
  "method" :: "string option"
  path :: "string option"
  http_version :: "string option"

record Response =
  connection :: nat
  header_count :: int
  headers :: "Header list"
  code :: int
  http_version :: "string option"
  body :: string
  encoded_response :: "string option"

text \<open>What the program does to the outside world, in order: diagnostics printed, bytes
  handed to \<^verbatim>\<open>send\<close> (socket, buffer, length argument), sockets closed.\<close>

datatype event = Printf string | Send nat string int | Closesocket nat

text \<open>What the peer makes one \<^verbatim>\<open>recv\<close> call return: bytes that are available, an
  orderly close (0) or an error (\<^verbatim>\<open>SOCKET_ERROR\<close>). What \<^verbatim>\<open>send\<close> returns: the number of
  bytes accepted, or \<^verbatim>\<open>SOCKET_ERROR\<close> with the code of \<^verbatim>\<open>WSAGetLastError\<close>.\<close>

datatype recv_event = Data string | Closed | Failed

datatype send_result = SendOk int | SendError int

section \<open>Status table\<close>

definition STATUS_TABLE_SIZE :: int where
  "STATUS_TABLE_SIZE = 512"

definition init_status_tbl :: "HttpStatus list" where
  "init_status_tbl =
     (replicate (nat STATUS_TABLE_SIZE) (0, None))
       [nat (200 smod STATUS_TABLE_SIZE) := (200, Some ''OK''),
        nat (201 smod STATUS_TABLE_SIZE) := (201, Some ''Created''),
        nat (204 smod STATUS_TABLE_SIZE) := (204, Some ''No Content'')]"

text \<open>The global table, as \<^verbatim>\<open>main\<close> fills it before the first connection.\<close>

definition statuses :: "HttpStatus list" where
  "statuses = init_status_tbl"

text \<open>\<^verbatim>\<open>code % STATUS_TABLE_SIZE\<close> truncates towards zero, so a negative code gives a
  negative index, outside the table.\<close>

definition reason :: "int \<Rightarrow> fault + string option" where
  "reason c =
     (let index = c smod STATUS_TABLE_SIZE in
      if index < 0 then Inl OutOfBounds
      else if fst (statuses ! nat index) = c then Inr (snd (statuses ! nat index))
      else Inr None)"

section \<open>Response encoder\<close>

definition bind :: "fault + 'a \<Rightarrow> ('a \<Rightarrow> fault + 'b) \<Rightarrow> fault + 'b" where
  "bind m f = (case m of Inl e \<Rightarrow> Inl e | Inr x \<Rightarrow> f x)"

definition crlf :: "string \<Rightarrow> string" where
  "crlf content = content @ [CR, LF]"

text \<open>\<^verbatim>\<open>add_header\<close> walks to the last node and links the new one behind it, then
  counts it: \<^verbatim>\<open>response->header_count++\<close> on an \<^verbatim>\<open>int\<close>.\<close>

definition add_header :: "Response \<Rightarrow> string \<Rightarrow> string \<Rightarrow> fault + Response" where
  "add_header response n v =
     bind (int_add (header_count response) 1) (\<lambda>count.
       Inr (response\<lparr>headers := headers response @ [\<lparr>name = n, value = v\<rparr>],
                     header_count := count\<rparr>))"

text \<open>The status line is printed into \<^verbatim>\<open>char status[64]\<close>; the version text is the
  literal \<^verbatim>\<open>HTTP/1.1\<close> of the format string. An unknown code prints a diagnostic and
  returns NULL.\<close>

definition construct_status_line :: "Response \<Rightarrow> fault + (string option \<times> event list)" where
  "construct_status_line response =
     bind (reason (code response)) (\<lambda>reason_str.
       case reason_str of
         None \<Rightarrow>
           Inr (None, [Printf (''Unrecognized reason for code: '' @ show_int (code response))])
       | Some rs \<Rightarrow>
           bind (sprintf 64 (''HTTP/1.1 '' @ show_int (code response) @ '' '' @ rs))
             (\<lambda>status. Inr (Some (crlf status), [])))"

text \<open>One round of the loop of \<^verbatim>\<open>construct_headers\<close>: four \<^verbatim>\<open>strcat\<close> calls on the
  buffer of \<open>cap\<close> bytes.\<close>

definition append_header :: "nat \<Rightarrow> string \<Rightarrow> Header \<Rightarrow> fault + string" where
  "append_header cap headers_str current =
     bind (strcat cap headers_str (name current)) (\<lambda>s1.
     bind (strcat cap s1 '': '') (\<lambda>s2.
     bind (strcat cap s2 (value current)) (\<lambda>s3.
     strcat cap s3 (crlf []))))"

fun construct_headers_loop :: "nat \<Rightarrow> Header list \<Rightarrow> string \<Rightarrow> fault + string" where
  "construct_headers_loop cap [] headers_str = Inr headers_str"
| "construct_headers_loop cap (current # rest) headers_str =
     (case append_header cap headers_str current of
        Inl e \<Rightarrow> Inl e
      | Inr s \<Rightarrow> construct_headers_loop cap rest s)"

text \<open>The buffer has \<^verbatim>\<open>header_count * 2 * 80\<close> bytes ("assuming each header won't
  exceed 160 characters"), a product of \<^verbatim>\<open>int\<close>s computed from the left. A negative
  product is a huge \<^verbatim>\<open>size_t\<close>, which \<^verbatim>\<open>malloc\<close> refuses; with 0 bytes the first write,
  \<^verbatim>\<open>headers_str[0] = '\0'\<close>, is already outside.\<close>

definition construct_headers :: "Response \<Rightarrow> fault + string" where
  "construct_headers response =
     bind (int_mul (header_count response) 2) (\<lambda>twice.
     bind (int_mul twice 80) (\<lambda>cap.
       if cap < 0 then Inl NullPointer
       else if cap = 0 then Inl OutOfBounds
       else construct_headers_loop (nat cap) (headers response) []))"

text \<open>\<^verbatim>\<open>encode\<close> changes the response in place; on an unknown code it returns with the
  response as it was. The length of the body is printed into \<^verbatim>\<open>char body_str[20]\<close>, the
  result is built in a buffer of \<^verbatim>\<open>strlen(status_line) + strlen(headers_str) +
  body_length + 4\<close> bytes.\<close>

definition encode :: "Response \<Rightarrow> fault + (Response \<times> event list)" where
  "encode response =
     bind (construct_status_line response) (\<lambda>(status_line_opt, evs).
       case status_line_opt of
         None \<Rightarrow> Inr (response, evs)
       | Some status_line \<Rightarrow>
           let body_length = length (body response) in
           bind (sprintf 20 (show_nat body_length)) (\<lambda>body_str.
           bind (add_header response ''Content-Length'' body_str) (\<lambda>response1.
           bind (add_header response1 ''Connection'' ''close'') (\<lambda>response2.
           bind (construct_headers response2) (\<lambda>headers_str.
             let cap = length status_line + length headers_str + body_length + 4 in
             bind (strcat cap [] status_line) (\<lambda>e1.
             bind (strcat cap e1 headers_str) (\<lambda>e2.
             bind (strcat cap e2 (crlf [])) (\<lambda>e3.
             bind (strcat cap e3 (body response)) (\<lambda>encoded.
               Inr (response2\<lparr>encoded_response := Some encoded\<rparr>, evs))))))))))"

section \<open>Response sender\<close>

text \<open>\<^verbatim>\<open>response_length >= configuration->max_ressize\<close> compares a \<^verbatim>\<open>size_t\<close> with an
  \<^verbatim>\<open>int\<close>: the \<^verbatim>\<open>int\<close> is converted to \<^verbatim>\<open>size_t\<close> (64 bits), and \<^verbatim>\<open>(int)
  response_length\<close> keeps the low 32 bits.\<close>

definition size_t_of_int :: "int \<Rightarrow> nat" where
  "size_t_of_int i = nat (i mod 2 ^ 64)"

definition int_of_size_t :: "nat \<Rightarrow> int" where
  "int_of_size_t n = sint (word_of_nat n :: 32 word)"

definition free_response :: "Response \<Rightarrow> event list" where
  "free_response response = []"

definition send_response :: "Configuration \<Rightarrow> Response \<Rightarrow> send_result \<Rightarrow> fault + event list" where
  "send_response configuration response0 send_ret =
     bind (encode response0) (\<lambda>(response, evs).
       case encoded_response response of
         None \<Rightarrow>
           Inr (evs @ [Printf ''No encoded response to send''] @ free_response response)
       | Some encoded \<Rightarrow>
           let response_length = length encoded in
           if size_t_of_int (max_ressize configuration) \<le> response_length then
             Inr (evs @
               [Printf (''Attempted to send response that exceeds configuration->max_ressize. Response size: ''
                  @ show_nat response_length)] @ free_response response)
           else
             let sent = Send (connection response) encoded (int_of_size_t response_length) in
             (case send_ret of
                SendError err \<Rightarrow>
                  Inr (evs @ [sent,
                    Printf (''Unable to write response to client, failed with error: ''
                      @ show_int err @ [LF])] @ free_response response)
              | SendOk bytes_sent \<Rightarrow>
                  if bytes_sent \<noteq> int_of_size_t response_length then
                    Inr (evs @ [sent,
                      Printf (''Warning: Not all bytes sent. Bytes sent: '' @ show_int bytes_sent
                        @ '', Expected: '' @ show_nat response_length @ [LF])]
                      @ free_response response)
                  else Inr (evs @ [sent] @ free_response response)))"

section \<open>Frame reader\<close>

text \<open>One call \<^verbatim>\<open>recv(sock, buf, len, 0)\<close>: the return value, the bytes written at
  \<open>buf\<close> and the socket afterwards. At most \<open>len\<close> of the available bytes are taken and the
  others stay queued; a peer with nothing more to say has closed.\<close>

fun recv :: "recv_event list \<Rightarrow> nat \<Rightarrow> int \<times> string \<times> recv_event list" where
  "recv [] len = (0, [], [])"
| "recv (Closed # sock) len = (0, [], sock)"
| "recv (Failed # sock) len = (- 1, [], sock)"
| "recv (Data bytes # sock) len =
     (int (min len (length bytes)), take len bytes,
      if len < length bytes then Data (drop len bytes) # sock else sock)"

definition write_bytes :: "string \<Rightarrow> nat \<Rightarrow> string \<Rightarrow> fault + string" where
  "write_bytes buffer off bytes =
     (if off + length bytes \<le> length buffer
      then Inr (take off buffer @ bytes @ drop (off + length bytes) buffer)
      else Inl OutOfBounds)"

text \<open>The code after the loop: \<^verbatim>\<open>buffer[read_ptr] = '\0'\<close>, then the header text is
  the string at the start of the buffer if anything was read.\<close>

definition http_decode_finish :: "string \<Rightarrow> nat \<Rightarrow> fault + (string option \<times> string option)" where
  "http_decode_finish buffer read_ptr =
     (if read_ptr < length buffer then
        (if 0 < read_ptr
         then Inr (Some (takeWhile (\<lambda>c. c \<noteq> NUL) (buffer[read_ptr := NUL])), None)
         else Inr (None, None))
      else Inl OutOfBounds)"

text \<open>The loop. \<^verbatim>\<open>strstr(buffer, "\r\n\r\n")\<close> and \<^verbatim>\<open>strdup(body_start + 4)\<close> read the
  buffer as a string from its first byte, whatever \<open>read_ptr\<close> is: nothing ends the
  received bytes with a NUL inside the loop.\<close>

function http_decode_loop ::
  "int \<Rightarrow> string \<Rightarrow> nat \<Rightarrow> recv_event list \<Rightarrow> fault + (string option \<times> string option)" where
  "http_decode_loop maxsize buffer read_ptr sock =
     (if int read_ptr < maxsize - 1 then
        (case recv sock (nat (maxsize - int read_ptr)) of
           (bytes_read, bytes, sock') \<Rightarrow>
             if bytes_read \<le> 0 then http_decode_finish buffer read_ptr
             else
               (case write_bytes buffer read_ptr bytes of
                  Inl e \<Rightarrow> Inl e
                | Inr buffer' \<Rightarrow>
                    (case cstr buffer' of
                       Inl e \<Rightarrow> Inl e
                     | Inr str \<Rightarrow>
                         (case strstr str [CR, LF, CR, LF] of
                            Some headers_length \<Rightarrow>
                              Inr (Some (take headers_length str),
                                   Some (drop (headers_length + 4) str))
                          | None \<Rightarrow>
                              http_decode_loop maxsize buffer' (read_ptr + nat bytes_read) sock'))))
      else http_decode_finish buffer read_ptr)"
  by pat_completeness auto
termination
  by (relation "measure (\<lambda>(maxsize, buffer, read_ptr, sock). nat maxsize - read_ptr)") auto

text \<open>\<^verbatim>\<open>char buffer[configuration->max_reqsize]\<close> is not initialised: \<open>stack\<close> gives the
  bytes that lie there when the function is entered. An array of no positive size is
  no object at all.\<close>

definition http_decode ::
  "recv_event list \<Rightarrow> Configuration \<Rightarrow> (nat \<Rightarrow> char) \<Rightarrow> fault + (string option \<times> string option)" where
  "http_decode sock configuration stack =
     (if max_reqsize configuration \<le> 0 then Inl OutOfBounds
      else http_decode_loop (max_reqsize configuration)
             (map stack [0..<nat (max_reqsize configuration)]) 0 sock)"

section \<open>Request parser\<close>

text \<open>The second loop of \<^verbatim>\<open>trim_whitespace\<close>: \<open>end\<close> steps down from the last character
  while it is above \<open>str\<close> and on a space.\<close>

fun trim_end :: "string \<Rightarrow> nat \<Rightarrow> nat" where
  "trim_end str 0 = 0"
| "trim_end str (Suc e) = (if isspace (str ! Suc e) then trim_end str e else Suc e)"

definition trim_whitespace :: "string \<Rightarrow> string" where
  "trim_whitespace s =
     (let str = dropWhile isspace s in
      if str = [] then str
      else take (trim_end str (length str - 1) + 1) str)"

definition parse_status_line :: "string \<Rightarrow> Request \<Rightarrow> bool \<times> Request" where
  "parse_status_line line request =
     (case strchr line CHR '' '' of
        None \<Rightarrow> (False, request)
      | Some space1 \<Rightarrow>
          let request1 = request\<lparr>method := Some (take space1 line)\<rparr>;
              rest = drop (space1 + 1) line in
          (case strchr rest CHR '' '' of
             None \<Rightarrow> (False, request1)
           | Some space2 \<Rightarrow>
               (True, request1\<lparr>path := Some (take space2 rest),
                               Request.http_version := Some (drop (space2 + 1) rest)\<rparr>)))"

definition parse_header_line :: "string \<Rightarrow> Request \<Rightarrow> bool \<times> Request" where
  "parse_header_line line request =
     (case strchr line CHR '':'' of
        None \<Rightarrow> (False, request)
      | Some colon \<Rightarrow>
          let header = \<lparr>name = trim_whitespace (take colon line),
                        value = trim_whitespace (drop (colon + 1) line)\<rparr> in
          (True, request\<lparr>Request.headers := header # Request.headers request,
                         Request.header_count := Request.header_count request + 1\<rparr>))"

text \<open>The \<^verbatim>\<open>while\<close> loop of \<^verbatim>\<open>new_request\<close> over the lines that \<^verbatim>\<open>strtok_r\<close> still
  finds behind \<open>saveptr\<close>.\<close>

function new_request_loop :: "string \<Rightarrow> Request \<Rightarrow> Request \<times> event list" where
  "new_request_loop saveptr request =
     (case strtok_r saveptr LF of
        None \<Rightarrow> (request, [])
      | Some (line, saveptr') \<Rightarrow>
          (case parse_header_line line request of
             (True, request') \<Rightarrow> new_request_loop saveptr' request'
           | (False, request') \<Rightarrow>
               (request'\<lparr>method := None\<rparr>,
                [Printf (''Malformed request. Failed to parse header line: '' @ line @ [LF])])))"
  by pat_completeness auto
termination
proof (relation "measure (\<lambda>(saveptr, request). length saveptr)")
  show "wf (measure (\<lambda>(saveptr, request). length saveptr))"
    by simp
next
  fix saveptr :: string and request request' :: Request and x line saveptr' y b
  assume tok: "strtok_r saveptr LF = Some x" and x: "(line, saveptr') = x"
  define s1 where "s1 = dropWhile (\<lambda>c. c = LF) saveptr"
  have ne: "s1 \<noteq> []" and rest: "saveptr' = drop 1 (dropWhile (\<lambda>c. c \<noteq> LF) s1)"
    using tok x by (auto simp: strtok_r_def Let_def s1_def split: if_splits)
  have "length saveptr' < length s1"
    using ne length_dropWhile_le [of "\<lambda>c. c \<noteq> LF" s1] by (cases s1) (auto simp: rest)
  moreover have "length s1 \<le> length saveptr"
    unfolding s1_def by (rule length_dropWhile_le)
  ultimately show "((saveptr', request'), (saveptr, request))
      \<in> measure (\<lambda>(saveptr, request). length saveptr)"
    by simp
qed

definition new_request :: "nat \<Rightarrow> string \<Rightarrow> Request \<times> event list" where
  "new_request conn hdrs =
     (let request = \<lparr>Request.connection = conn, Request.header_count = 0,
                     Request.headers = [], method = None, path = None,
                     Request.http_version = None\<rparr> in
      case strtok_r hdrs LF of
        None \<Rightarrow> (request, [])
      | Some (line, saveptr) \<Rightarrow>
          (case parse_status_line line request of
             (False, request') \<Rightarrow> (request', [])
           | (True, request') \<Rightarrow> new_request_loop saveptr request'))"

section \<open>Request handler\<close>

text \<open>\<^verbatim>\<open>display_request_details\<close> prints the three fields of the request line with
  \<^verbatim>\<open>%s\<close>, which needs a string: a NULL field is a fault.\<close>

definition display_request_details :: "Request \<Rightarrow> string option \<Rightarrow> fault + event list" where
  "display_request_details request body_opt =
     (case (method request, path request, Request.http_version request) of
        (Some m, Some p, Some v) \<Rightarrow>
          Inr ([Printf (''Resource requested: '' @ m @ '' '' @ p @ '' '' @ v @ [LF]),
                Printf (''Headers:'' @ [LF])]
               @ map (\<lambda>current. Printf ([CHR 0x09] @ ''- '' @ name current @ '': ''
                                           @ value current @ [LF]))
                   (Request.headers request)
               @ [Printf (''Body:'' @ [LF])]
               @ (case body_opt of None \<Rightarrow> [] | Some b \<Rightarrow> [Printf (b @ [LF, LF])]))
      | _ \<Rightarrow> Inl NullPointer)"

definition free_request :: "Request \<Rightarrow> event list" where
  "free_request request = [Closesocket (Request.connection request)]"

definition free_request_resources :: "Request \<Rightarrow> string \<Rightarrow> string option \<Rightarrow> event list" where
  "free_request_resources request hdrs body_opt = free_request request"

text \<open>The handler answers every request that has a method with the same page.
  \<^verbatim>\<open>strdup(request.http_version)\<close> needs a string.\<close>

definition handle_request ::
  "nat \<Rightarrow> Configuration \<Rightarrow> recv_event list \<Rightarrow> (nat \<Rightarrow> char) \<Rightarrow> send_result \<Rightarrow> fault + event list" where
  "handle_request conn configuration sock stack send_ret =
     bind (http_decode sock configuration stack) (\<lambda>(headers_opt, body_opt).
       case headers_opt of
         None \<Rightarrow> Inr [Printf ''Failed to parse headers from client'', Closesocket conn]
       | Some hdrs \<Rightarrow>
           (case new_request conn hdrs of
              (request, evs1) \<Rightarrow>
                if method request \<noteq> None then
                  bind (display_request_details request body_opt) (\<lambda>evs2.
                    case Request.http_version request of
                      None \<Rightarrow> Inl NullPointer
                    | Some v \<Rightarrow>
                        let response =
                          \<lparr>connection = Request.connection request, header_count = 0,
                           headers = [], code = 200, http_version = Some v,
                           body = ''<html><body><h4>Hello</h4></body></html>'',
                           encoded_response = None\<rparr> in
                        bind (send_response configuration response send_ret) (\<lambda>evs3.
                          Inr (evs1 @ evs2 @ evs3
                               @ free_request_resources request hdrs body_opt)))
                else Inr (evs1 @ free_request_resources request hdrs body_opt)))"

section \<open>Vocabulary of the statements\<close>

text \<open>The lines of a header block, in wire order, as repeated \<^verbatim>\<open>strtok_r\<close> calls with
  the delimiter \<^verbatim>\<open>\n\<close> hand them to the parser (an empty line is never a token).\<close>

function lines_of :: "string \<Rightarrow> string list" where
  "lines_of s =
     (case strtok_r s LF of
        None \<Rightarrow> []
      | Some (line, saveptr) \<Rightarrow> line # lines_of saveptr)"
  by pat_completeness auto
termination
proof (relation "measure length")
  show "wf (measure (length :: string \<Rightarrow> nat))"
    by simp
next
  fix s :: string and x line saveptr
  assume tok: "strtok_r s LF = Some x" and x: "(line, saveptr) = x"
  define s1 where "s1 = dropWhile (\<lambda>c. c = LF) s"
  have ne: "s1 \<noteq> []" and rest: "saveptr = drop 1 (dropWhile (\<lambda>c. c \<noteq> LF) s1)"
    using tok x by (auto simp: strtok_r_def Let_def s1_def split: if_splits)
  have "length saveptr < length s1"
    using ne length_dropWhile_le [of "\<lambda>c. c \<noteq> LF" s1] by (cases s1) (auto simp: rest)
  moreover have "length s1 \<le> length s"
    unfolding s1_def by (rule length_dropWhile_le)
  ultimately show "(saveptr, s) \<in> measure length"
    by simp
qed

text \<open>The header that a line with a colon stands for: the text before the first colon
  and the text behind it, both trimmed.\<close>

definition header_of_line :: "string \<Rightarrow> Header" where
  "header_of_line line =
     \<lparr>name = trim_whitespace (takeWhile (\<lambda>c. c \<noteq> CHR '':'') line),
      value = trim_whitespace (drop 1 (dropWhile (\<lambda>c. c \<noteq> CHR '':'') line))\<rparr>"

text \<open>The line that a header is sent as.\<close>

definition header_line :: "Header \<Rightarrow> string" where
  "header_line h = name h @ '': '' @ value h @ [CR, LF]"

text \<open>The codes that \<^verbatim>\<open>init_status_tbl\<close> enters into the table.\<close>

definition known_code :: "int \<Rightarrow> bool" where
  "known_code c \<longleftrightarrow> c = 200 \<or> c = 201 \<or> c = 204"

text \<open>An event that hands bytes to \<^verbatim>\<open>send\<close>.\<close>

fun is_send :: "event \<Rightarrow> bool" where
  "is_send (Send conn bytes len) = True"
| "is_send (Printf msg) = False"
| "is_send (Closesocket conn) = False"

section \<open>Whitespace trimming\<close>

lemma trim_end_rev:
  "e < length str \<Longrightarrow> \<not> isspace (str ! 0) \<Longrightarrow>
   take (Suc (trim_end str e)) str = rev (dropWhile isspace (rev (take (Suc e) str)))"
proof (induction e)
  case 0
  then show ?case by (cases str) simp_all
next
  case (Suc e)
  then have IH: "take (Suc (trim_end str e)) str = rev (dropWhile isspace (rev (take (Suc e) str)))"
    by simp
  have split: "take (Suc (Suc e)) str = take (Suc e) str @ [str ! Suc e]"
    using Suc.prems(1) by (simp add: take_Suc_conv_app_nth)
  show ?case
  proof (cases "isspace (str ! Suc e)")
    case True
    then show ?thesis using IH split by simp
  next
    case False
    then show ?thesis using split by simp
  qed
qed

text \<open>The two loops together drop the spaces in front and at the end.\<close>

lemma trim_whitespace_rev:
  "trim_whitespace s = rev (dropWhile isspace (rev (dropWhile isspace s)))"
proof (cases "dropWhile isspace s = []")
  case True
  show ?thesis unfolding trim_whitespace_def Let_def True by simp
next
  case False
  define str where "str = dropWhile isspace s"
  have ne: "str \<noteq> []" using False by (simp add: str_def)
  have "\<not> isspace (hd str)" unfolding str_def using False by (rule hd_dropWhile)
  then have h0: "\<not> isspace (str ! 0)" using ne by (simp add: hd_conv_nth)
  have "take (Suc (trim_end str (length str - 1))) str
        = rev (dropWhile isspace (rev (take (Suc (length str - 1)) str)))"
    using ne h0 by (intro trim_end_rev) simp_all
  then show ?thesis using ne by (simp add: trim_whitespace_def str_def [symmetric])
qed

lemma trim_whitespace_trimmed:
  "s = [] \<or> (\<not> isspace (hd s) \<and> \<not> isspace (last s)) \<Longrightarrow> trim_whitespace s = s"
proof (cases s rule: rev_cases)
  case Nil
  then show ?thesis by (simp add: trim_whitespace_rev)
next
  case (snoc ys y)
  assume "s = [] \<or> (\<not> isspace (hd s) \<and> \<not> isspace (last s))"
  with snoc have h: "\<not> isspace (hd s)" and l: "\<not> isspace y" by simp_all
  from h have 1: "dropWhile isspace s = s" unfolding snoc by (cases ys) simp_all
  from l snoc have 2: "dropWhile isspace (rev s) = rev s" by simp
  have "rev (dropWhile isspace (rev (dropWhile isspace s))) = rev (rev s)"
    unfolding 1 2 ..
  then show ?thesis by (simp only: trim_whitespace_rev rev_rev_ident)
qed

lemma trim_whitespace_all_space:
  "\<forall>c\<in>set s. isspace c \<Longrightarrow> trim_whitespace s = []"
proof -
  assume "\<forall>c\<in>set s. isspace c"
  then have e: "dropWhile isspace s = []" by simp
  show ?thesis unfolding trim_whitespace_rev e by simp
qed

lemma trim_whitespace_ends:
  "trim_whitespace s \<noteq> [] \<Longrightarrow>
   \<not> isspace (hd (trim_whitespace s)) \<and> \<not> isspace (last (trim_whitespace s))"
proof -
  define str where "str = dropWhile isspace s"
  define t where "t = dropWhile isspace (rev str)"
  assume "trim_whitespace s \<noteq> []"
  then have tne: "t \<noteq> []" by (simp add: trim_whitespace_rev t_def str_def)
  then have l: "\<not> isspace (hd t)" unfolding t_def by (rule hd_dropWhile)
  from tne have sne: "str \<noteq> []" by (auto simp: t_def)
  then have h: "\<not> isspace (hd str)" unfolding str_def by (rule hd_dropWhile)
  have "rev str = takeWhile isspace (rev str) @ t" by (simp add: t_def)
  then have "str = rev t @ rev (takeWhile isspace (rev str))"
    by (metis rev_append rev_rev_ident)
  then have "hd str = hd (rev t)" using tne by (metis hd_append2 rev_is_Nil_conv)
  with h l tne show ?thesis
    by (simp add: trim_whitespace_rev t_def [symmetric] str_def [symmetric] last_rev)
qed

text \<open>
  C9. Trimming a string that is empty or neither starts nor ends with a whitespace
  character returns it unchanged; trimming a string of whitespace characters only gives
  the empty string; and trimming twice is trimming once.
\<close>

theorem trim_whitespace_idempotent:
  "((s = [] \<or> (\<not> isspace (hd s) \<and> \<not> isspace (last s))) \<longrightarrow> trim_whitespace s = s)
   \<and> ((\<forall>c\<in>set t. isspace c) \<longrightarrow> trim_whitespace t = [])
   \<and> trim_whitespace (trim_whitespace u) = trim_whitespace u"
proof (intro conjI impI)
  assume "s = [] \<or> (\<not> isspace (hd s) \<and> \<not> isspace (last s))"
  then show "trim_whitespace s = s" by (rule trim_whitespace_trimmed)
next
  assume "\<forall>c\<in>set t. isspace c"
  then show "trim_whitespace t = []" by (rule trim_whitespace_all_space)
next
  show "trim_whitespace (trim_whitespace u) = trim_whitespace u"
    using trim_whitespace_ends [of u] by (intro trim_whitespace_trimmed) blast
qed

theorem trim_whitespace_idempotent_witness:
  "trim_whitespace ''a b'' = ''a b''
   \<and> trim_whitespace [CHR '' '', CHR 0x09, CHR 0x0D, CHR 0x0A] = []
   \<and> trim_whitespace (trim_whitespace '' x y  '') = trim_whitespace '' x y  ''"
  using trim_whitespace_idempotent [of "''a b''" "[CHR '' '', CHR 0x09, CHR 0x0D, CHR 0x0A]" "'' x y  ''"]
  by (simp add: isspace_def)

section \<open>Request parser: lines and headers\<close>

declare new_request_loop.simps [simp del]

declare lines_of.simps [simp del]

declare http_decode_loop.simps [simp del]

lemma strchr_found:
  "c \<in> set s \<Longrightarrow> strchr s c = Some (length (takeWhile (\<lambda>x. x \<noteq> c) s))"
  by (induction s) auto

lemma strchr_absent: "c \<notin> set s \<Longrightarrow> strchr s c = None"
  by (induction s) auto

lemma take_length_takeWhile: "take (length (takeWhile P s)) s = takeWhile P s"
  by (induction s) auto

lemma drop_length_takeWhile: "drop (length (takeWhile P s)) s = dropWhile P s"
  by (induction s) auto

lemma parse_header_line_colon:
  "CHR '':'' \<in> set line \<Longrightarrow>
   parse_header_line line request =
     (True, request\<lparr>Request.headers := header_of_line line # Request.headers request,
                    Request.header_count := Request.header_count request + 1\<rparr>)"
proof -
  assume colon: "CHR '':'' \<in> set line"
  let ?i = "length (takeWhile (\<lambda>c. c \<noteq> CHR '':'') line)"
  have "drop (?i + 1) line = drop 1 (drop ?i line)"
    by (simp only: drop_drop add.commute)
  then have "drop (?i + 1) line = drop 1 (dropWhile (\<lambda>c. c \<noteq> CHR '':'') line)"
    by (simp only: drop_length_takeWhile)
  then show ?thesis
    unfolding parse_header_line_def header_of_line_def strchr_found [OF colon]
    by (simp only: option.case Let_def take_length_takeWhile)
qed

lemma parse_header_line_no_colon:
  "CHR '':'' \<notin> set line \<Longrightarrow> parse_header_line line request = (False, request)"
  by (simp add: parse_header_line_def strchr_absent)

lemma lines_of_Nil: "lines_of s = [] \<Longrightarrow> strtok_r s LF = None"
  by (subst (asm) lines_of.simps) (simp split: option.splits prod.splits)

lemma lines_of_Cons:
  "lines_of s = l # ls \<Longrightarrow> \<exists>rest. strtok_r s LF = Some (l, rest) \<and> lines_of rest = ls"
  by (subst (asm) lines_of.simps) (auto split: option.splits prod.splits)

lemma new_request_loop_good:
  "\<forall>l\<in>set (lines_of s). CHR '':'' \<in> set l \<Longrightarrow>
   new_request_loop s r =
     (r\<lparr>Request.headers := rev (map header_of_line (lines_of s)) @ Request.headers r,
        Request.header_count := Request.header_count r + int (length (lines_of s))\<rparr>, [])"
proof (induction "lines_of s" arbitrary: s r)
  case Nil
  then have "strtok_r s LF = None" by (simp add: lines_of_Nil)
  then show ?case using Nil(1) [symmetric] by (subst new_request_loop.simps) simp
next
  case (Cons l ls)
  from lines_of_Cons [OF Cons(2) [symmetric]] obtain rest
    where tok: "strtok_r s LF = Some (l, rest)" and rest: "lines_of rest = ls" by blast
  have colon: "CHR '':'' \<in> set l" using Cons(2,3) by (metis list.set_intros(1))
  have all: "\<forall>l\<in>set (lines_of rest). CHR '':'' \<in> set l"
    using Cons(2,3) rest by (metis list.set_intros(2))
  note IH = Cons(1) [OF rest [symmetric] all]
  show ?case
    by (subst new_request_loop.simps)
       (simp add: tok parse_header_line_colon [OF colon] IH Cons(2) [symmetric] rest)
qed

lemma new_request_loop_bad:
  "lines_of s = pre @ bad # post \<Longrightarrow> \<forall>l\<in>set pre. CHR '':'' \<in> set l \<Longrightarrow>
   CHR '':'' \<notin> set bad \<Longrightarrow>
   new_request_loop s r =
     (r\<lparr>Request.headers := rev (map header_of_line pre) @ Request.headers r,
        Request.header_count := Request.header_count r + int (length pre),
        method := None\<rparr>,
      [Printf (''Malformed request. Failed to parse header line: '' @ bad @ [LF])])"
proof (induction pre arbitrary: s r)
  case Nil
  then have "lines_of s = bad # post" by simp
  from lines_of_Cons [OF this] obtain rest
    where tok: "strtok_r s LF = Some (bad, rest)" by blast
  show ?case
    by (subst new_request_loop.simps)
       (simp add: tok parse_header_line_no_colon [OF Nil(3)])
next
  case (Cons l pre)
  then have "lines_of s = l # (pre @ bad # post)" by simp
  from lines_of_Cons [OF this] obtain rest
    where tok: "strtok_r s LF = Some (l, rest)" and rest: "lines_of rest = pre @ bad # post"
    by blast
  have colon: "CHR '':'' \<in> set l" using Cons(3) by simp
  have all: "\<forall>l\<in>set pre. CHR '':'' \<in> set l" using Cons(3) by simp
  note IH = Cons(1) [OF rest all Cons(4)]
  show ?case
    by (subst new_request_loop.simps)
       (simp add: tok parse_header_line_colon [OF colon] IH)
qed

section \<open>Request parser: the request line\<close>

lemma count_list_after_first:
  "c \<in> set s \<Longrightarrow> count_list s c = Suc (count_list (drop 1 (dropWhile (\<lambda>x. x \<noteq> c) s)) c)"
  by (induction s) auto

lemma count_list_pos_iff: "0 < count_list s c \<longleftrightarrow> c \<in> set s"
  using count_list_0_iff [of s c] by auto

lemma drop_after_first:
  "drop (length (takeWhile P s) + 1) s = drop 1 (dropWhile P s)"
proof -
  have "drop (length (takeWhile P s) + 1) s = drop 1 (drop (length (takeWhile P s)) s)"
    by (simp only: drop_drop add.commute)
  then show ?thesis by (simp only: drop_length_takeWhile)
qed

lemma parse_status_line_no_space:
  "count_list line CHR '' '' = 0 \<Longrightarrow> parse_status_line line request = (False, request)"
  by (simp add: parse_status_line_def strchr_absent count_list_0_iff)

lemma parse_status_line_one_space:
  assumes "count_list line CHR '' '' = 1"
  shows "parse_status_line line request =
    (False, request\<lparr>method := Some (takeWhile (\<lambda>c. c \<noteq> CHR '' '') line)\<rparr>)"
proof -
  have sp: "CHR '' '' \<in> set line" using assms count_list_pos_iff [of line "CHR '' ''"] by simp
  have "count_list (drop 1 (dropWhile (\<lambda>c. c \<noteq> CHR '' '') line)) CHR '' '' = 0"
    using count_list_after_first [OF sp] assms by simp
  then have none: "strchr (drop 1 (dropWhile (\<lambda>c. c \<noteq> CHR '' '') line)) CHR '' '' = None"
    by (simp add: strchr_absent count_list_0_iff)
  show ?thesis
    unfolding parse_status_line_def strchr_found [OF sp] drop_after_first
    by (simp only: option.case Let_def drop_after_first none take_length_takeWhile)
qed

lemma parse_status_line_two_spaces:
  assumes "2 \<le> count_list line CHR '' ''"
  shows "parse_status_line line request =
    (True, request\<lparr>method := Some (takeWhile (\<lambda>c. c \<noteq> CHR '' '') line),
       path := Some (takeWhile (\<lambda>c. c \<noteq> CHR '' '') (drop 1 (dropWhile (\<lambda>c. c \<noteq> CHR '' '') line))),
       Request.http_version := Some (drop 1 (dropWhile (\<lambda>c. c \<noteq> CHR '' '')
          (drop 1 (dropWhile (\<lambda>c. c \<noteq> CHR '' '') line))))\<rparr>)"
proof -
  let ?rest = "drop 1 (dropWhile (\<lambda>c. c \<noteq> CHR '' '') line)"
  have sp: "CHR '' '' \<in> set line" using assms count_list_pos_iff [of line "CHR '' ''"] by simp
  have "0 < count_list ?rest CHR '' ''"
    using count_list_after_first [OF sp] assms by simp
  then have sp2: "CHR '' '' \<in> set ?rest" by (simp only: count_list_pos_iff)
  show ?thesis
    unfolding parse_status_line_def strchr_found [OF sp] drop_after_first
    by (simp only: option.case Let_def strchr_found [OF sp2] take_length_takeWhile drop_after_first)
qed

text \<open>
  C8. When the request line of a header block parses and every header line holds a colon,
  the stored header list is the list of the lines' headers in the reverse of wire order
  (the line parsed last comes first), and the header count is the number of header
  lines.
\<close>

theorem request_headers_reverse_wire_order:
  assumes "lines_of hs = request_line # header_lines"
    and "2 \<le> count_list request_line CHR '' ''"
    and "\<forall>l\<in>set header_lines. CHR '':'' \<in> set l"
  shows "Request.headers (fst (new_request conn hs)) = rev (map header_of_line header_lines)
    \<and> Request.header_count (fst (new_request conn hs)) = int (length header_lines)
    \<and> method (fst (new_request conn hs)) \<noteq> None"
proof -
  from lines_of_Cons [OF assms(1)] obtain rest
    where tok: "strtok_r hs LF = Some (request_line, rest)" and rest: "lines_of rest = header_lines"
    by blast
  have all: "\<forall>l\<in>set (lines_of rest). CHR '':'' \<in> set l" using assms(3) rest by simp
  show ?thesis
    by (simp add: new_request_def tok parse_status_line_two_spaces [OF assms(2)]
        new_request_loop_good [OF all] rest)
qed

theorem request_headers_reverse_wire_order_witness:
  "Request.headers (fst (new_request 3 (''GET / HTTP/1.1'' @ [CR, LF] @ ''Host: x'' @ [CR, LF] @ ''Accept :  a/b '')))
     = [\<lparr>name = ''Accept'', value = ''a/b''\<rparr>, \<lparr>name = ''Host'', value = ''x''\<rparr>]
   \<and> Request.header_count (fst (new_request 3 (''GET / HTTP/1.1'' @ [CR, LF] @ ''Host: x'' @ [CR, LF] @ ''Accept :  a/b ''))) = 2"
proof -
  let ?hs = "''GET / HTTP/1.1'' @ [CR, LF] @ ''Host: x'' @ [CR, LF] @ ''Accept :  a/b ''"
  have 1: "lines_of ?hs = (''GET / HTTP/1.1'' @ [CR]) # [''Host: x'' @ [CR], ''Accept :  a/b '']"
    by code_simp
  have 2: "2 \<le> count_list (''GET / HTTP/1.1'' @ [CR]) CHR '' ''" by simp
  have 3: "\<forall>l\<in>set [''Host: x'' @ [CR], ''Accept :  a/b '']. CHR '':'' \<in> set l" by simp
  have 4: "header_of_line (''Host: x'' @ [CR]) = \<lparr>name = ''Host'', value = ''x''\<rparr>"
    by code_simp
  have 5: "header_of_line ''Accept :  a/b '' = \<lparr>name = ''Accept'', value = ''a/b''\<rparr>"
    by code_simp
  from request_headers_reverse_wire_order [OF 1 2 3, of 3] show ?thesis
    by (simp add: 4 [simplified] 5 [simplified])
qed


text \<open>
  The header-line path: when the request line parses and a header line without a colon
  follows header lines with one, at whatever position, the method is reset to unset, the
  lines behind the malformed one are not processed (the stored headers are those of the
  lines in front of it, whatever follows), and the diagnostic names the malformed line.
\<close>

lemma malformed_header_line_invalidates:
  assumes "lines_of hs = request_line # pre @ bad # post"
    and "2 \<le> count_list request_line CHR '' ''"
    and "\<forall>l\<in>set pre. CHR '':'' \<in> set l"
    and "CHR '':'' \<notin> set bad"
  shows "method (fst (new_request conn hs)) = None
    \<and> Request.headers (fst (new_request conn hs)) = rev (map header_of_line pre)
    \<and> Request.header_count (fst (new_request conn hs)) = int (length pre)
    \<and> snd (new_request conn hs)
        = [Printf (''Malformed request. Failed to parse header line: '' @ bad @ [LF])]"
proof -
  from lines_of_Cons [OF assms(1)] obtain rest
    where tok: "strtok_r hs LF = Some (request_line, rest)"
      and rest: "lines_of rest = pre @ bad # post"
    by blast
  show ?thesis
    by (simp add: new_request_def tok parse_status_line_two_spaces [OF assms(2)]
        new_request_loop_bad [OF rest assms(3) assms(4)])
qed

lemma malformed_header_line_invalidates_example:
  "method (fst (new_request 3
      (''GET / HTTP/1.1'' @ [CR, LF] @ ''Host: x'' @ [CR, LF] @ ''no colon'' @ [CR, LF] @ ''A: b''))) = None
   \<and> Request.headers (fst (new_request 3
      (''GET / HTTP/1.1'' @ [CR, LF] @ ''Host: x'' @ [CR, LF] @ ''no colon'' @ [CR, LF] @ ''A: b'')))
      = [\<lparr>name = ''Host'', value = ''x''\<rparr>]
   \<and> Request.header_count (fst (new_request 3
      (''GET / HTTP/1.1'' @ [CR, LF] @ ''Host: x'' @ [CR, LF] @ ''no colon'' @ [CR, LF] @ ''A: b''))) = 1"
proof -
  let ?hs = "''GET / HTTP/1.1'' @ [CR, LF] @ ''Host: x'' @ [CR, LF] @ ''no colon'' @ [CR, LF] @ ''A: b''"
  have 1: "lines_of ?hs = (''GET / HTTP/1.1'' @ [CR]) # [''Host: x'' @ [CR]] @ (''no colon'' @ [CR]) # [''A: b'']"
    by code_simp
  have 2: "2 \<le> count_list (''GET / HTTP/1.1'' @ [CR]) CHR '' ''" by simp
  have 3: "\<forall>l\<in>set [''Host: x'' @ [CR]]. CHR '':'' \<in> set l" by simp
  have 4: "CHR '':'' \<notin> set (''no colon'' @ [CR])" by (simp add: CR_def)
  have 5: "header_of_line (''Host: x'' @ [CR]) = \<lparr>name = ''Host'', value = ''x''\<rparr>"
    by code_simp
  from malformed_header_line_invalidates [OF 1 2 3 4, of 3] show ?thesis
    by (simp add: 5 [simplified])
qed

text \<open>
  C5. A header line without a colon should leave the request invalid, with the method
  unset, wherever it stands. Behind the request line \<^verbatim>\<open>GET /\<close>, which has one space, it
  does not: \<^verbatim>\<open>new_request\<close> returns before it reads a header line, with the method
  \<^verbatim>\<open>GET\<close> that \<^verbatim>\<open>parse_status_line\<close> has stored. Behind a request line with two spaces the
  same line resets the method.
\<close>

theorem malformed_header_behind_one_space_line:
  "method (fst (new_request 3
      (''GET /'' @ [CR, LF] @ ''Host: x'' @ [CR, LF] @ ''no colon''))) = Some ''GET''
   \<and> Request.headers (fst (new_request 3
      (''GET /'' @ [CR, LF] @ ''Host: x'' @ [CR, LF] @ ''no colon''))) = []
   \<and> snd (new_request 3
      (''GET /'' @ [CR, LF] @ ''Host: x'' @ [CR, LF] @ ''no colon'')) = []
   \<and> method (fst (new_request 3
      (''GET / HTTP/1.1'' @ [CR, LF] @ ''Host: x'' @ [CR, LF] @ ''no colon''))) = None"
  by code_simp

text \<open>A first line without any space leaves the request as it was initialised.\<close>

lemma request_line_no_space_rejected:
  assumes "lines_of hs = line # others" and "count_list line CHR '' '' = 0"
  shows "new_request conn hs =
    (\<lparr>Request.connection = conn, Request.header_count = 0, Request.headers = [],
      method = None, path = None, Request.http_version = None\<rparr>, [])"
proof -
  from lines_of_Cons [OF assms(1)] obtain rest
    where tok: "strtok_r hs LF = Some (line, rest)" by blast
  show ?thesis
    by (simp add: new_request_def tok parse_status_line_no_space [OF assms(2)])
qed

text \<open>
  C10. When the first line of a header block holds exactly one space, the parser returns
  a request whose method is the text before that space, with path and version unset and
  no header line parsed. The method is set, so the handler's check \<^verbatim>\<open>request.method != NULL\<close>
  passes: the handler goes on to print and copy the unset fields, a NULL dereference.
\<close>

theorem single_space_request_line_accepted:
  assumes "lines_of hs = line # others" and "count_list line CHR '' '' = 1"
  shows "new_request conn hs =
      (\<lparr>Request.connection = conn, Request.header_count = 0, Request.headers = [],
        method = Some (takeWhile (\<lambda>c. c \<noteq> CHR '' '') line), path = None,
        Request.http_version = None\<rparr>, [])
    \<and> method (fst (new_request conn hs)) \<noteq> None
    \<and> (http_decode sock configuration stack = Inr (Some hs, body_opt) \<longrightarrow>
         handle_request conn configuration sock stack send_ret = Inl NullPointer)"
proof -
  from lines_of_Cons [OF assms(1)] obtain rest
    where tok: "strtok_r hs LF = Some (line, rest)" by blast
  have req: "new_request conn hs =
      (\<lparr>Request.connection = conn, Request.header_count = 0, Request.headers = [],
        method = Some (takeWhile (\<lambda>c. c \<noteq> CHR '' '') line), path = None,
        Request.http_version = None\<rparr>, [])"
    by (simp add: new_request_def tok parse_status_line_one_space [OF assms(2)])
  have "handle_request conn configuration sock stack send_ret = Inl NullPointer"
    if "http_decode sock configuration stack = Inr (Some hs, body_opt)"
    by (simp add: handle_request_def that bind_def req display_request_details_def)
  with req show ?thesis by simp
qed

theorem single_space_request_line_accepted_witness:
  "new_request 3 (''GET /index.html'' @ [CR, LF] @ ''Host: x'') =
      (\<lparr>Request.connection = 3, Request.header_count = 0, Request.headers = [],
        method = Some ''GET'', path = None, Request.http_version = None\<rparr>, [])
   \<and> handle_request 3 \<lparr>port = 80, max_reqsize = 64, max_ressize = 8192, listening = True\<rparr>
        [Data (''GET /index.html'' @ [CR, LF] @ ''Host: x'' @ [CR, LF, CR, LF])]
        (\<lambda>i. NUL) (SendOk 98) = Inl NullPointer"
proof -
  let ?hs = "''GET /index.html'' @ [CR, LF] @ ''Host: x''"
  have 1: "lines_of ?hs = (''GET /index.html'' @ [CR]) # [''Host: x'']"
    by code_simp
  have 2: "count_list (''GET /index.html'' @ [CR]) CHR '' '' = 1" by (simp add: CR_def)
  have 3: "http_decode [Data (''GET /index.html'' @ [CR, LF] @ ''Host: x'' @ [CR, LF, CR, LF])]
      \<lparr>port = 80, max_reqsize = 64, max_ressize = 8192, listening = True\<rparr> (\<lambda>i. NUL)
      = Inr (Some ?hs, Some [])"
    by code_simp
  from single_space_request_line_accepted [OF 1 2, of 3
      "[Data (''GET /index.html'' @ [CR, LF] @ ''Host: x'' @ [CR, LF, CR, LF])]"
      "\<lparr>port = 80, max_reqsize = 64, max_ressize = 8192, listening = True\<rparr>" "\<lambda>i. NUL"
      "Some []" "SendOk 98"] 3
  show ?thesis by simp
qed

text \<open>
  C1. A first line with fewer than two spaces should leave the request invalid, with the
  method unset. On the first line \<^verbatim>\<open>GET /index.html\<close> the method stays set to \<^verbatim>\<open>GET\<close>:
  \<^verbatim>\<open>parse_status_line\<close> stores it before it looks for the second space, and
  \<^verbatim>\<open>new_request\<close> does not reset it as it does for a malformed header line.
\<close>

theorem request_line_one_space_keeps_method:
  "fst (new_request 3 ''GET /index.html'') =
     \<lparr>Request.connection = 3, Request.header_count = 0, Request.headers = [],
      method = Some ''GET'', path = None, Request.http_version = None\<rparr>
   \<and> fst (new_request 3 (''GET /index.html'' @ [CR, LF] @ ''bad line'')) =
     \<lparr>Request.connection = 3, Request.header_count = 0, Request.headers = [],
      method = Some ''GET'', path = None, Request.http_version = None\<rparr>"
  by code_simp

section \<open>Status table lookup\<close>

text \<open>The table after \<^verbatim>\<open>init_status_tbl\<close>, entry by entry.\<close>

lemma statuses_nth:
  "i < 512 \<Longrightarrow> statuses ! i =
     (if i = 204 then (204, Some ''No Content'')
      else if i = 201 then (201, Some ''Created'')
      else if i = 200 then (200, Some ''OK'')
      else (0, None))"
  by (simp add: statuses_def init_status_tbl_def STATUS_TABLE_SIZE_def signed_modulo_int_def
      nth_list_update)

lemma smod_nonneg: "0 \<le> c \<Longrightarrow> c smod STATUS_TABLE_SIZE = c mod 512"
  by (simp add: signed_modulo_int_def STATUS_TABLE_SIZE_def sgn_if)

lemma reason_known:
  "reason 200 = Inr (Some ''OK'')" "reason 201 = Inr (Some ''Created'')"
  "reason 204 = Inr (Some ''No Content'')"
  by (simp_all add: reason_def smod_nonneg statuses_nth)

text \<open>A code that is not negative and not one of the three entered is reported as not
  found; a lookup that finds a reason found one of the three.\<close>

lemma reason_unknown:
  assumes "0 \<le> c" and "\<not> known_code c"
  shows "reason c = Inr None"
proof -
  let ?i = "nat (c mod 512)"
  have i: "?i < 512" by simp
  have idx: "c smod STATUS_TABLE_SIZE = c mod 512" using assms(1) by (rule smod_nonneg)
  have nonneg: "\<not> c mod 512 < 0" by simp
  show ?thesis
  proof (cases "fst (statuses ! ?i) = c")
    case False
    then show ?thesis unfolding reason_def idx Let_def using nonneg by simp
  next
    case True
    then have "snd (statuses ! ?i) = None"
      using assms(2) unfolding statuses_nth [OF i] known_code_def by (auto split: if_splits)
    then show ?thesis unfolding reason_def idx Let_def using nonneg True by simp
  qed
qed

lemma reason_SomeD:
  assumes "reason c = Inr (Some rs)"
  shows "(c = 200 \<and> rs = ''OK'') \<or> (c = 201 \<and> rs = ''Created'') \<or> (c = 204 \<and> rs = ''No Content'')"
proof -
  let ?j = "c smod STATUS_TABLE_SIZE"
  from assms have nn: "0 \<le> ?j" and f: "fst (statuses ! nat ?j) = c"
    and s: "snd (statuses ! nat ?j) = Some rs"
    by (auto simp: reason_def Let_def split: if_splits)
  have "\<bar>?j\<bar> < 512"
    by (simp add: signed_modulo_int_def STATUS_TABLE_SIZE_def abs_mult abs_sgn_eq)
  then have i: "nat ?j < 512" using nn by simp
  show ?thesis using f s unfolding statuses_nth [OF i] by (auto split: if_splits)
qed

lemma known_code_reason: "known_code c \<longleftrightarrow> (\<exists>rs. reason c = Inr (Some rs))"
  using reason_SomeD [of c] reason_known by (auto simp: known_code_def)


section \<open>Decimal texts\<close>

declare show_nat.simps [simp del]

lemma length_show_nat: "0 < k \<Longrightarrow> n < 10 ^ k \<Longrightarrow> length (show_nat n) \<le> k"
proof (induction n arbitrary: k rule: show_nat.induct)
  case (1 n)
  show ?case
  proof (cases "n < 10")
    case True
    then show ?thesis using "1.prems" by (subst show_nat.simps) simp
  next
    case False
    obtain j where k: "k = Suc j"
      using "1.prems"(1) by (cases k) simp_all
    have j: "0 < j"
    proof (rule ccontr)
      assume "\<not> 0 < j"
      then show False using False "1.prems"(2) k by simp
    qed
    have "n div 10 < 10 ^ j" using "1.prems"(2) k by (simp add: less_mult_imp_div_less mult.commute)
    from "1.IH" [OF False j this] show ?thesis using False k
      by (subst show_nat.simps) simp
  qed
qed

lemma nat_of_decimal_snoc:
  "nat_of_decimal (s @ [c]) = 10 * nat_of_decimal s + (of_char c - 48)"
  by (simp add: nat_of_decimal_def)

lemma nat_of_decimal_show_nat: "nat_of_decimal (show_nat n) = n"
proof (induction n rule: show_nat.induct)
  case (1 n)
  show ?case
  proof (cases "n < 10")
    case True
    then show ?thesis by (subst show_nat.simps) (simp add: nat_of_decimal_def)
  next
    case False
    have "of_char (char_of (48 + n mod 10)) = 48 + n mod 10"
      by (simp add: of_char_of) 
    then show ?thesis using False "1.IH" [OF False]
      by (subst show_nat.simps) (simp add: nat_of_decimal_snoc)
  qed
qed

section \<open>Response encoder: status line and headers\<close>

lemma show_int_known:
  "show_int 200 = ''200''" "show_int 201 = ''201''" "show_int 204 = ''204''"
  by code_simp+

lemma construct_status_line_known:
  assumes "reason (code r) = Inr (Some rs)"
  shows "construct_status_line r =
    Inr (Some (''HTTP/1.1 '' @ show_int (code r) @ '' '' @ rs @ [CR, LF]), [])"
  using reason_SomeD [OF assms] assms
  by (auto simp: construct_status_line_def bind_def sprintf_def crlf_def show_int_known)

lemma append_header_fits:
  "length acc + length (header_line h) + 1 \<le> cap \<Longrightarrow>
   append_header cap acc h = Inr (acc @ header_line h)"
  by (simp add: append_header_def strcat_def bind_def header_line_def crlf_def)

lemma construct_headers_loop_fits:
  "length acc + length (concat (map header_line hs)) + 1 \<le> cap \<Longrightarrow>
   construct_headers_loop cap hs acc = Inr (acc @ concat (map header_line hs))"
proof (induction hs arbitrary: acc)
  case Nil
  then show ?case by simp
next
  case (Cons h hs)
  then have 1: "append_header cap acc h = Inr (acc @ header_line h)"
    by (intro append_header_fits) simp
  have 2: "construct_headers_loop cap hs (acc @ header_line h)
      = Inr ((acc @ header_line h) @ concat (map header_line hs))"
    using Cons.prems by (intro Cons.IH) simp
  show ?case by (simp add: 1 2)
qed


lemma encode_shape:
  assumes "reason (code r) = Inr (Some rs)" and "encode r = Inr (r', evs)"
  shows "\<exists>hstr. encoded_response r' =
      Some ((''HTTP/1.1 '' @ show_int (code r) @ '' '' @ rs @ [CR, LF]) @ hstr) \<and> evs = []"
  using assms(2) unfolding encode_def construct_status_line_known [OF assms(1)]
  by (auto simp: bind_def Let_def strcat_def add_header_def split: sum.splits if_splits)

text \<open>
  C2 (as amended). For every response whose status code is in the table, the status
  line is \<^verbatim>\<open>HTTP/1.1 <code> <reason>\<close> followed by CRLF: the version text is the literal
  of the format string, the status line does not depend on the response's own version
  field, and every encoded output begins with that line.
\<close>

theorem status_line_literal_version:
  assumes "reason (code r) = Inr (Some rs)"
  shows "construct_status_line r =
      Inr (Some (''HTTP/1.1 '' @ show_int (code r) @ '' '' @ rs @ [CR, LF]), [])
    \<and> construct_status_line (r\<lparr>http_version := v\<rparr>) = construct_status_line r
    \<and> (encode r = Inr (r', evs) \<longrightarrow>
        (\<exists>rest. encoded_response r' =
           Some ((''HTTP/1.1 '' @ show_int (code r) @ '' '' @ rs @ [CR, LF]) @ rest)))"
proof (intro conjI impI)
  show "construct_status_line r =
      Inr (Some (''HTTP/1.1 '' @ show_int (code r) @ '' '' @ rs @ [CR, LF]), [])"
    using assms by (rule construct_status_line_known)
  show "construct_status_line (r\<lparr>http_version := v\<rparr>) = construct_status_line r"
    by (simp add: construct_status_line_def bind_def split: sum.split option.split)
next
  assume "encode r = Inr (r', evs)"
  from encode_shape [OF assms this]
  show "\<exists>rest. encoded_response r' =
           Some ((''HTTP/1.1 '' @ show_int (code r) @ '' '' @ rs @ [CR, LF]) @ rest)"
    by blast
qed

text \<open>
  C3 (as amended). For every response whose status code is in the table, whose header
  count is the number \<open>N\<close> of its headers, whose body is shorter than \<open>10^19\<close> bytes and
  whose header text (the \<open>N\<close> caller-set lines and the two synthesized ones) is shorter than the
  \<open>160 * (N + 2)\<close> bytes that \<^verbatim>\<open>construct_headers\<close> allocates, a number that fits an
  \<^verbatim>\<open>int\<close>, encoding leaves \<open>N + 2\<close>
  headers: the caller-set ones, then \<^verbatim>\<open>Content-Length\<close> with the decimal text of the body's
  byte length, then \<^verbatim>\<open>Connection: close\<close>. The output is the status line, all header
  lines in list order, one CRLF and the body, with nothing behind it.
\<close>

theorem encode_known_code:
  fixes r :: Response
  defines "hs' \<equiv> headers r @
      [\<lparr>name = ''Content-Length'', value = show_nat (length (body r))\<rparr>,
       \<lparr>name = ''Connection'', value = ''close''\<rparr>]"
  assumes known: "reason (code r) = Inr (Some rs)"
    and count: "header_count r = int (length (headers r))"
    and short: "length (body r) < 10 ^ 19"
    and range: "160 * (length (headers r) + 2) \<le> 2147483647"
    and fits: "length (concat (map header_line hs')) < 160 * (length (headers r) + 2)"
  shows "encode r =
      Inr (r\<lparr>headers := hs', header_count := int (length (headers r)) + 2,
             encoded_response :=
               Some ((''HTTP/1.1 '' @ show_int (code r) @ '' '' @ rs @ [CR, LF])
                     @ concat (map header_line hs') @ [CR, LF] @ body r)\<rparr>, [])
    \<and> length hs' = length (headers r) + 2
    \<and> nat_of_decimal (value (hs' ! length (headers r))) = length (body r)"
proof -
  let ?n = "int (length (headers r))"
  let ?r1 = "r\<lparr>headers := headers r @
        [\<lparr>name = ''Content-Length'', value = show_nat (length (body r))\<rparr>],
      header_count := ?n + 1\<rparr>"
  let ?r2 = "r\<lparr>headers := hs', header_count := ?n + 2\<rparr>"
  have digits: "sprintf 20 (show_nat (length (body r))) = Inr (show_nat (length (body r)))"
    using length_show_nat [of 19 "length (body r)"] short by (simp add: sprintf_def)
  have "int (160 * (length (headers r) + 2)) \<le> int 2147483647"
    using range by (simp only: of_nat_le_iff)
  then have small: "160 * (?n + 2) \<le> 2147483647"
    by simp
  have a1: "add_header r ''Content-Length'' (show_nat (length (body r))) = Inr ?r1"
    using small by (simp add: add_header_def int_add_def bind_def count INT_MIN_def INT_MAX_def)
  have a2: "add_header ?r1 ''Connection'' ''close'' = Inr ?r2"
    using small by (simp add: add_header_def int_add_def bind_def hs'_def INT_MIN_def INT_MAX_def)
  have hc: "header_count ?r2 = ?n + 2" and hh: "headers ?r2 = hs'"
    by simp_all
  have m1: "int_mul (?n + 2) 2 = Inr (2 * (?n + 2))"
    using small by (simp add: int_mul_def INT_MIN_def INT_MAX_def)
  have m2: "int_mul (2 * (?n + 2)) 80 = Inr (160 * (?n + 2))"
    using small by (simp add: int_mul_def INT_MIN_def INT_MAX_def)
  have pos: "\<not> 160 * (?n + 2) < 0" "160 * (?n + 2) \<noteq> 0"
    by simp_all
  have cap: "nat (160 * (?n + 2)) = 160 * (length (headers r) + 2)"
    by (simp add: nat_add_distrib nat_mult_distrib)
  have "construct_headers ?r2 = construct_headers_loop (nat (160 * (?n + 2))) hs' []"
    by (simp only: construct_headers_def hc hh bind_def m1 m2 sum.case pos if_False)
  then have "construct_headers ?r2 =
      construct_headers_loop (160 * (length (headers r) + 2)) hs' []"
    by (simp only: cap)
  also have "\<dots> = Inr ([] @ concat (map header_line hs'))"
    using fits by (intro construct_headers_loop_fits) simp
  finally have hdrs: "construct_headers ?r2 = Inr (concat (map header_line hs'))"
    by simp
  have enc: "encode r =
      Inr (?r2\<lparr>encoded_response :=
               Some ((''HTTP/1.1 '' @ show_int (code r) @ '' '' @ rs @ [CR, LF])
                     @ concat (map header_line hs') @ [CR, LF] @ body r)\<rparr>, [])"
    unfolding encode_def construct_status_line_known [OF known]
    by (simp add: bind_def Let_def digits a1 a2 hdrs strcat_def crlf_def)
  have "value (hs' ! length (headers r)) = show_nat (length (body r))"
    by (simp add: hs'_def nth_append)
  then show ?thesis
    unfolding enc by (simp add: nat_of_decimal_show_nat hs'_def)
qed



theorem status_line_literal_version_witness:
  "construct_status_line
      \<lparr>connection = 3, header_count = 0, headers = [], code = 200,
       http_version = Some ''HTTP/1.0'', body = ''hi'', encoded_response = None\<rparr>
     = Inr (Some (''HTTP/1.1 200 OK'' @ [CR, LF]), [])
   \<and> construct_status_line
      \<lparr>connection = 3, header_count = 0, headers = [], code = 200,
       http_version = Some ''HTTP/2'', body = ''hi'', encoded_response = None\<rparr>
     = Inr (Some (''HTTP/1.1 200 OK'' @ [CR, LF]), [])"
  using status_line_literal_version [of
      "\<lparr>connection = 3, header_count = 0, headers = [], code = 200,
        http_version = Some ''HTTP/1.0'', body = ''hi'', encoded_response = None\<rparr>"
      "''OK''" "Some ''HTTP/2''"]
  by (simp add: reason_known show_int_known)

text \<open>C2 as stated fails: a response with version \<^verbatim>\<open>HTTP/1.0\<close> and code 200 gets the
  status line \<^verbatim>\<open>HTTP/1.1 200 OK\<close>, and its encoded output begins with it.\<close>

theorem status_line_ignores_version_field:
  "construct_status_line
      \<lparr>connection = 3, header_count = 0, headers = [], code = 200,
       http_version = Some ''HTTP/1.0'', body = ''hi'', encoded_response = None\<rparr>
     \<noteq> Inr (Some (''HTTP/1.0 200 OK'' @ [CR, LF]), [])
   \<and> map_sum id (\<lambda>(r, evs). map_option (take 17) (encoded_response r))
       (encode \<lparr>connection = 3, header_count = 0, headers = [], code = 200,
          http_version = Some ''HTTP/1.0'', body = ''hi'', encoded_response = None\<rparr>)
     = Inr (Some (''HTTP/1.1 200 OK'' @ [CR, LF]))"
  by code_simp

theorem encode_known_code_witness:
  "encode \<lparr>connection = 3, header_count = 1, headers = [\<lparr>name = ''Server'', value = ''w''\<rparr>],
       code = 201, http_version = Some ''HTTP/1.1'', body = ''hello, world'',
       encoded_response = None\<rparr>
   = Inr (\<lparr>connection = 3, header_count = 3,
        headers = [\<lparr>name = ''Server'', value = ''w''\<rparr>,
                   \<lparr>name = ''Content-Length'', value = ''12''\<rparr>,
                   \<lparr>name = ''Connection'', value = ''close''\<rparr>],
        code = 201, http_version = Some ''HTTP/1.1'', body = ''hello, world'',
        encoded_response = Some (''HTTP/1.1 201 Created'' @ [CR, LF] @ ''Server: w'' @ [CR, LF]
           @ ''Content-Length: 12'' @ [CR, LF] @ ''Connection: close'' @ [CR, LF] @ [CR, LF]
           @ ''hello, world'')\<rparr>, [])
   \<and> nat_of_decimal ''12'' = length ''hello, world''"
proof -
  let ?r = "\<lparr>connection = 3, header_count = 1, headers = [\<lparr>name = ''Server'', value = ''w''\<rparr>],
       code = 201, http_version = Some ''HTTP/1.1'', body = ''hello, world'',
       encoded_response = None\<rparr>"
  have n: "show_nat (length (body ?r)) = ''12''" by code_simp
  have 1: "reason (code ?r) = Inr (Some ''Created'')" by (simp add: reason_known)
  have 2: "header_count ?r = int (length (headers ?r))" by simp
  have 3: "length (body ?r) < 10 ^ 19" by simp
  have 4: "length (concat (map header_line (headers ?r @
      [\<lparr>name = ''Content-Length'', value = show_nat (length (body ?r))\<rparr>,
       \<lparr>name = ''Connection'', value = ''close''\<rparr>]))) < 160 * (length (headers ?r) + 2)"
    unfolding n by (simp add: header_line_def)
  have 5: "160 * (length (headers ?r) + 2) \<le> 2147483647" by simp
  from encode_known_code [OF 1 2 3 5 4, unfolded n] show ?thesis
    by (simp add: show_int_known header_line_def nat_of_decimal_def)
qed

text \<open>With 13421773 headers or more the size of the buffer no longer fits an \<^verbatim>\<open>int\<close>.\<close>

lemma construct_headers_count_overflows:
  "13421773 \<le> header_count r \<Longrightarrow> construct_headers r = Inl IntOverflow"
  by (simp add: construct_headers_def int_mul_def bind_def INT_MIN_def INT_MAX_def)

text \<open>C3 as stated fails: with one caller-set header of 500 bytes the third
  \<^verbatim>\<open>strcat\<close> of \<^verbatim>\<open>construct_headers\<close> writes behind the 480 bytes allocated.\<close>

theorem encode_long_header_overflows:
  "encode \<lparr>connection = 3, header_count = 1,
       headers = [\<lparr>name = ''Cookie'', value = replicate 500 CHR ''a''\<rparr>],
       code = 200, http_version = Some ''HTTP/1.1'', body = ''hi'',
       encoded_response = None\<rparr> = Inl OutOfBounds"
proof -
  have n: "show_nat 2 = ''2''" by code_simp
  show ?thesis
    by (simp add: encode_def construct_status_line_def reason_known bind_def sprintf_def
        show_int_known n add_header_def int_add_def int_mul_def INT_MIN_def INT_MAX_def
        construct_headers_def append_header_def strcat_def crlf_def Let_def)
qed


section \<open>Response sender\<close>

lemma encode_unknown:
  assumes "0 \<le> code r" and "\<not> known_code (code r)"
  shows "encode r = Inr (r, [Printf (''Unrecognized reason for code: '' @ show_int (code r))])"
  by (simp add: encode_def construct_status_line_def reason_unknown [OF assms] bind_def)

text \<open>
  C6. For every response whose status code is absent from the status table (a code that
  is not negative: a negative code indexes the table below its first entry), encoding
  fails: it prints a diagnostic and leaves the response as it was, with no encoded output.
  Sending such a response, not encoded before, prints the two diagnostics and hands no byte
  to \<^verbatim>\<open>send\<close>.
\<close>

theorem encode_unknown_code_fails:
  assumes "0 \<le> code r" and "\<not> known_code (code r)"
  shows "encode r = Inr (r, [Printf (''Unrecognized reason for code: '' @ show_int (code r))])
    \<and> (encoded_response r = None \<longrightarrow>
         send_response configuration r send_ret =
           Inr [Printf (''Unrecognized reason for code: '' @ show_int (code r)),
                Printf ''No encoded response to send''])"
  by (simp add: encode_unknown [OF assms] send_response_def bind_def free_response_def)

theorem encode_unknown_code_fails_witness:
  "encode \<lparr>connection = 3, header_count = 0, headers = [], code = 404,
       http_version = Some ''HTTP/1.1'', body = ''missing'', encoded_response = None\<rparr>
     = Inr (\<lparr>connection = 3, header_count = 0, headers = [], code = 404,
       http_version = Some ''HTTP/1.1'', body = ''missing'', encoded_response = None\<rparr>,
       [Printf ''Unrecognized reason for code: 404''])
   \<and> send_response \<lparr>port = 80, max_reqsize = 8192, max_ressize = 8192, listening = True\<rparr>
       \<lparr>connection = 3, header_count = 0, headers = [], code = 404,
        http_version = Some ''HTTP/1.1'', body = ''missing'', encoded_response = None\<rparr>
       (SendOk 0)
     = Inr [Printf ''Unrecognized reason for code: 404'', Printf ''No encoded response to send'']"
proof -
  have n: "show_int 404 = ''404''" by code_simp
  from encode_unknown_code_fails [of
      "\<lparr>connection = 3, header_count = 0, headers = [], code = 404,
        http_version = Some ''HTTP/1.1'', body = ''missing'', encoded_response = None\<rparr>"
      "\<lparr>port = 80, max_reqsize = 8192, max_ressize = 8192, listening = True\<rparr>" "SendOk 0"]
  show ?thesis by (simp add: known_code_def n)
qed

lemma encode_no_send: "encode r = Inr (r', evs) \<Longrightarrow> filter is_send evs = []"
  unfolding encode_def construct_status_line_def
  by (auto simp: bind_def Let_def sprintf_def strcat_def split: sum.splits option.splits if_splits)

lemma size_t_of_int_le: "0 \<le> m \<Longrightarrow> m < int n \<Longrightarrow> size_t_of_int m \<le> n"
proof -
  assume "0 \<le> m" and "m < int n"
  have "m mod 2 ^ 64 \<le> m" using \<open>0 \<le> m\<close> by (rule zmod_le_nonneg_dividend)
  then show ?thesis using \<open>m < int n\<close> by (simp add: size_t_of_int_def)
qed

lemma send_response_too_long:
  assumes "0 \<le> max_ressize configuration"
    and "encode r = Inr (r', evs)"
    and "encoded_response r' = Some encoded"
    and "max_ressize configuration < int (length encoded)"
  shows "send_response configuration r send_ret =
      Inr (evs @ [Printf (''Attempted to send response that exceeds configuration->max_ressize. Response size: ''
                          @ show_nat (length encoded))])"
  using size_t_of_int_le [OF assms(1,4)]
  by (simp add: send_response_def assms(2,3) bind_def free_response_def)

lemma new_request_loop_connection:
  "Request.connection (fst (new_request_loop s r)) = Request.connection r"
proof (induction s r rule: new_request_loop.induct)
  case (1 saveptr request)
  show ?case
  proof (cases "strtok_r saveptr LF")
    case None
    then show ?thesis by (subst new_request_loop.simps) simp
  next
    case (Some tok)
    obtain line saveptr' where tok: "tok = (line, saveptr')" by (cases tok)
    obtain ok request' where p: "parse_header_line line request = (ok, request')"
      by (cases "parse_header_line line request")
    have c: "Request.connection request' = Request.connection request"
      using p by (auto simp: parse_header_line_def Let_def split: option.splits)
    show ?thesis
    proof (cases ok)
      case True
      have "ok = True" using True by simp
      from "1.IH" [OF Some tok [symmetric] p [symmetric] this] c
      show ?thesis by (subst new_request_loop.simps) (simp add: Some tok p True)
    next
      case False
      then show ?thesis using c by (subst new_request_loop.simps) (simp add: Some tok p)
    qed
  qed
qed

lemma new_request_connection: "Request.connection (fst (new_request conn hs)) = conn"
proof -
  have "Request.connection (snd (parse_status_line line r)) = Request.connection r" for line r
    by (simp add: parse_status_line_def Let_def split: option.splits)
  then show ?thesis
    by (auto simp: new_request_def Let_def new_request_loop_connection
        split: option.splits prod.splits bool.splits
        dest!: arg_cong [where f = "\<lambda>p. Request.connection (snd p)"])
qed


lemma new_request_loop_no_send: "filter is_send (snd (new_request_loop s r)) = []"
proof (induction s r rule: new_request_loop.induct)
  case (1 saveptr request)
  show ?case
  proof (cases "strtok_r saveptr LF")
    case None
    then show ?thesis by (subst new_request_loop.simps) simp
  next
    case (Some tok)
    obtain line saveptr' where tok: "tok = (line, saveptr')" by (cases tok)
    obtain ok request' where p: "parse_header_line line request = (ok, request')"
      by (cases "parse_header_line line request")
    show ?thesis
    proof (cases ok)
      case True
      have "ok = True" using True by simp
      from "1.IH" [OF Some tok [symmetric] p [symmetric] this]
      show ?thesis by (subst new_request_loop.simps) (simp add: Some tok p True)
    next
      case False
      then show ?thesis by (subst new_request_loop.simps) (simp add: Some tok p)
    qed
  qed
qed

lemma new_request_no_send: "filter is_send (snd (new_request conn hs)) = []"
  by (simp add: new_request_def Let_def new_request_loop_no_send
      split: option.splits prod.splits bool.splits)

lemma display_request_details_no_send:
  "display_request_details request body_opt = Inr evs \<Longrightarrow> filter is_send evs = []"
  by (auto simp: display_request_details_def filter_empty_conv split: option.splits)

text \<open>
  C7. If the encoded response is longer than the configured \<^verbatim>\<open>max_ressize\<close> (a size, not
  negative), \<^verbatim>\<open>send_response\<close> prints the diagnostic with the response size and hands no byte
  to \<^verbatim>\<open>send\<close>; and when the response is the one the handler builds, the handler closes the
  connection right after that diagnostic, and nothing has been sent before it.
\<close>

theorem oversized_response_not_sent:
  assumes "0 \<le> max_ressize configuration"
    and "encode r = Inr (r', evs)"
    and "encoded_response r' = Some encoded"
    and "max_ressize configuration < int (length encoded)"
  shows "send_response configuration r send_ret =
      Inr (evs @ [Printf (''Attempted to send response that exceeds configuration->max_ressize. Response size: ''
                          @ show_nat (length encoded))])
    \<and> filter is_send (evs @ [Printf (''Attempted to send response that exceeds configuration->max_ressize. Response size: ''
                          @ show_nat (length encoded))]) = []
    \<and> (http_decode sock configuration stack = Inr (Some hs, body_opt)
         \<and> new_request conn hs = (request, evs1)
         \<and> display_request_details request body_opt = Inr evs2
         \<and> Request.http_version request = Some v
         \<and> r = \<lparr>connection = conn, header_count = 0, headers = [], code = 200,
                 http_version = Some v, body = ''<html><body><h4>Hello</h4></body></html>'',
                 encoded_response = None\<rparr>
        \<longrightarrow> handle_request conn configuration sock stack send_ret =
              Inr (evs1 @ evs2 @ evs
                   @ [Printf (''Attempted to send response that exceeds configuration->max_ressize. Response size: ''
                              @ show_nat (length encoded)),
                      Closesocket conn])
            \<and> filter is_send (evs1 @ evs2 @ evs) = [])"
proof (intro conjI impI)
  let ?diag = "Printf (''Attempted to send response that exceeds configuration->max_ressize. Response size: ''
                          @ show_nat (length encoded))"
  show sr: "send_response configuration r send_ret = Inr (evs @ [?diag])"
    using assms by (rule send_response_too_long)
  show ns: "filter is_send (evs @ [?diag]) = []"
    using encode_no_send [OF assms(2)] by simp
  assume h: "http_decode sock configuration stack = Inr (Some hs, body_opt)
         \<and> new_request conn hs = (request, evs1)
         \<and> display_request_details request body_opt = Inr evs2
         \<and> Request.http_version request = Some v
         \<and> r = \<lparr>connection = conn, header_count = 0, headers = [], code = 200,
                 http_version = Some v, body = ''<html><body><h4>Hello</h4></body></html>'',
                 encoded_response = None\<rparr>"
  then have m: "method request \<noteq> None"
    by (auto simp: display_request_details_def split: option.splits)
  have c: "Request.connection request = conn"
    using h new_request_connection [of conn hs] by simp
  have sr': "send_response configuration
      \<lparr>connection = conn, header_count = 0, headers = [], code = 200,
       http_version = Some v, body = ''<html><body><h4>Hello</h4></body></html>'',
       encoded_response = None\<rparr> send_ret = Inr (evs @ [?diag])"
    using sr h by simp
  show "handle_request conn configuration sock stack send_ret =
      Inr (evs1 @ evs2 @ evs @ [?diag, Closesocket conn])"
    using h m by (simp add: handle_request_def bind_def c sr' free_request_resources_def
        free_request_def)
  have "filter is_send evs1 = []" using h new_request_no_send [of conn hs] by simp
  moreover have "filter is_send evs2 = []" using h display_request_details_no_send by blast
  ultimately show "filter is_send (evs1 @ evs2 @ evs) = []"
    using encode_no_send [OF assms(2)] by simp
qed


theorem oversized_response_not_sent_witness:
  "send_response \<lparr>port = 80, max_reqsize = 64, max_ressize = 10, listening = True\<rparr>
      \<lparr>connection = 3, header_count = 0, headers = [], code = 200, http_version = Some (''HTTP/1.1'' @ [CR]), body = ''<html><body><h4>Hello</h4></body></html>'', encoded_response = None\<rparr> (SendOk 98)
     = Inr [Printf ''Attempted to send response that exceeds configuration->max_ressize. Response size: 98'']
   \<and> handle_request 3 \<lparr>port = 80, max_reqsize = 64, max_ressize = 10, listening = True\<rparr>
      [Data (''GET / HTTP/1.1'' @ [CR, LF] @ ''Host: x'' @ [CR, LF, CR, LF] @ ''hello'')] (\<lambda>i. NUL) (SendOk 98)
     = Inr ([Printf (''Resource requested: GET / HTTP/1.1'' @ [CR, LF]), Printf (''Headers:'' @ [LF]), Printf ([CHR 0x09] @ ''- Host: x'' @ [LF]), Printf (''Body:'' @ [LF]), Printf (''hello'' @ [LF, LF])]
        @ [Printf ''Attempted to send response that exceeds configuration->max_ressize. Response size: 98'', Closesocket 3])"
proof -
  let ?cfg = "\<lparr>port = 80, max_reqsize = 64, max_ressize = 10, listening = True\<rparr>"
  let ?r = "\<lparr>connection = 3, header_count = 0, headers = [], code = 200, http_version = Some (''HTTP/1.1'' @ [CR]), body = ''<html><body><h4>Hello</h4></body></html>'', encoded_response = None\<rparr>"
  let ?r' = "\<lparr>connection = 3, header_count = 2, headers = [\<lparr>name = ''Content-Length'', value = ''40''\<rparr>, \<lparr>name = ''Connection'', value = ''close''\<rparr>], code = 200, http_version = Some (''HTTP/1.1'' @ [CR]), body = ''<html><body><h4>Hello</h4></body></html>'', encoded_response = Some (''HTTP/1.1 200 OK'' @ [CR, LF] @ ''Content-Length: 40'' @ [CR, LF] @ ''Connection: close'' @ [CR, LF, CR, LF] @ ''<html><body><h4>Hello</h4></body></html>'')\<rparr>"
  let ?enc = "''HTTP/1.1 200 OK'' @ [CR, LF] @ ''Content-Length: 40'' @ [CR, LF] @ ''Connection: close'' @ [CR, LF, CR, LF] @ ''<html><body><h4>Hello</h4></body></html>''"
  let ?req = "\<lparr>Request.connection = 3, Request.header_count = 1, Request.headers = [\<lparr>name = ''Host'', value = ''x''\<rparr>], method = Some ''GET'', path = Some ''/'', Request.http_version = Some (''HTTP/1.1'' @ [CR])\<rparr>"
  let ?evs2 = "[Printf (''Resource requested: GET / HTTP/1.1'' @ [CR, LF]), Printf (''Headers:'' @ [LF]), Printf ([CHR 0x09] @ ''- Host: x'' @ [LF]), Printf (''Body:'' @ [LF]), Printf (''hello'' @ [LF, LF])]"
  have 1: "0 \<le> max_ressize ?cfg" by simp
  have 2: "encode ?r = Inr (?r', [])" by code_simp
  have 3: "encoded_response ?r' = Some ?enc" by simp
  have 4: "max_ressize ?cfg < int (length ?enc)" by simp
  have n: "show_nat (length ?enc) = ''98''" by code_simp
  have d: "http_decode [Data (''GET / HTTP/1.1'' @ [CR, LF] @ ''Host: x'' @ [CR, LF, CR, LF] @ ''hello'')] ?cfg (\<lambda>i. NUL)
      = Inr (Some (''GET / HTTP/1.1'' @ [CR, LF] @ ''Host: x''), Some ''hello'')"
    by code_simp
  have nr: "new_request 3 (''GET / HTTP/1.1'' @ [CR, LF] @ ''Host: x'') = (?req, [])"
    by code_simp
  have dd: "display_request_details ?req (Some ''hello'') = Inr ?evs2"
    by code_simp
  note th = oversized_response_not_sent [OF 1 2 3 4,
      where send_ret = "SendOk 98" and sock = "[Data (''GET / HTTP/1.1'' @ [CR, LF] @ ''Host: x'' @ [CR, LF, CR, LF] @ ''hello'')]" and stack = "\<lambda>i. NUL"
        and hs = "''GET / HTTP/1.1'' @ [CR, LF] @ ''Host: x''" and body_opt = "Some ''hello''"
        and conn = 3 and request = "?req" and ?evs1.0 = "[]" and ?evs2.0 = "?evs2"
        and v = "''HTTP/1.1'' @ [CR]", unfolded n]
  from th d nr dd show ?thesis by simp
qed

section \<open>Frame reader\<close>

text \<open>On a zeroed buffer with room to spare the reader splits the bytes at the
  separator.\<close>

lemma http_decode_zeroed_buffer_example:
  "http_decode [Data (''GET / HTTP/1.1'' @ [CR, LF] @ ''Host: x'' @ [CR, LF, CR, LF] @ ''hello'')]
      \<lparr>port = 80, max_reqsize = 64, max_ressize = 8192, listening = True\<rparr> (\<lambda>i. NUL)
     = Inr (Some (''GET / HTTP/1.1'' @ [CR, LF] @ ''Host: x''), Some ''hello'')"
  by code_simp

text \<open>
  C4. The header output should be the bytes in front of the separator and the body output
  the bytes behind it, up to what has arrived. Inside the loop nothing ends the received
  bytes with a NUL, while \<^verbatim>\<open>strstr\<close> and \<^verbatim>\<open>strdup\<close> read up to the next NUL. When
  8 bytes that end in the separator fill a buffer of 8 bytes, the body is read behind the
  buffer. When 7 bytes arrive in a buffer of 16 bytes that holds stale bytes, the body
  output is \<^verbatim>\<open>hi\<close> with the stale bytes behind it. And a separator among the stale
  bytes ends the read before the request's own separator has arrived.
\<close>

theorem http_decode_reads_unterminated_buffer:
  "http_decode [Data (''ABCD'' @ [CR, LF, CR, LF])]
      \<lparr>port = 80, max_reqsize = 8, max_ressize = 8192, listening = True\<rparr> (\<lambda>i. NUL)
     = Inl OutOfBounds
   \<and> http_decode [Data (''H'' @ [CR, LF, CR, LF] @ ''hi'')]
      \<lparr>port = 80, max_reqsize = 16, max_ressize = 8192, listening = True\<rparr>
      (\<lambda>i. if i < 12 then CHR ''A'' else NUL)
     = Inr (Some ''H'', Some ''hiAAAAA'')
   \<and> http_decode [Data ''PUT /x'', Data ('' HTTP/1.1'' @ [CR, LF, CR, LF])]
      \<lparr>port = 80, max_reqsize = 32, max_ressize = 8192, listening = True\<rparr>
      (\<lambda>i. if i < 21 then (''GET / HTTP/1.1'' @ [CR, LF, CR, LF] @ ''old'') ! i else NUL)
     = Inr (Some ''PUT /xHTTP/1.1'', Some ''old'')"
  by code_simp

end
